theory Spec2Isabelle
  imports Main "HOL-Library.Word"
begin

unbundle bit_operations_syntax

section \<open>The output sink\<close>

text \<open>
  Every overload of \<open>print_ip\<close> in \<^verbatim>\<open>include/print_ip.hpp\<close> writes to
  \<open>std::cout\<close> and returns nothing. The stream is modelled by the text it has
  received so far; each insertion \<open>std::cout << x\<close> takes that text and returns it
  extended.
\<close>

type_synonym ostream = string

definition put_char :: "char \<Rightarrow> ostream \<Rightarrow> ostream" where
  "put_char c out = out @ [c]"

definition put_string :: "string \<Rightarrow> ostream \<Rightarrow> ostream" where
  "put_string s out = out @ s"

text \<open>
  The standard library's decimal rendering of an unsigned number (stream in its
  default state: base ten, no padding, no sign).
\<close>

definition digit_char :: "nat \<Rightarrow> char" where
  "digit_char d = ''0123456789'' ! d"

function dec_of_nat :: "nat \<Rightarrow> string" where
  "dec_of_nat n = (if n < 10 then [digit_char n] else dec_of_nat (n div 10) @ [digit_char (n mod 10)])"
  by pat_completeness auto
termination
  by (relation "measure (\<lambda>n. n)") auto

declare dec_of_nat.simps [simp del]

definition put_unsigned :: "nat \<Rightarrow> ostream \<Rightarrow> ostream" where
  "put_unsigned n out = out @ dec_of_nat n"

text \<open>Reading a decimal numeral back: the number that a string of digits denotes.\<close>

definition digit_value :: "char \<Rightarrow> nat" where
  "digit_value c = of_char c - 48"

definition nat_of_dec :: "string \<Rightarrow> nat" where
  "nat_of_dec s = foldl (\<lambda>acc c. 10 * acc + digit_value c) 0 s"

text \<open>
  What the standard library's \<open>operator<<\<close> writes for an element of some scalar
  types, the stream in its default state: a signed number in decimal with a leading
  minus sign when negative; a \<open>bool\<close> as \<open>1\<close> or \<open>0\<close> (no \<open>boolalpha\<close>); an
  \<open>unsigned char\<close> (which \<open>std::uint8_t\<close> names) as the one character with that code,
  not as a number.
\<close>

definition show_int :: "int \<Rightarrow> string" where
  "show_int k = (if k < 0 then CHR ''-'' # dec_of_nat (nat (- k)) else dec_of_nat (nat k))"

definition show_bool :: "bool \<Rightarrow> string" where
  "show_bool b = (if b then ''1'' else ''0'')"

definition show_unsigned_char :: "8 word \<Rightarrow> string" where
  "show_unsigned_char c = [char_of (unat c)]"

section \<open>Joining with dots\<close>

text \<open>
  The reference against which the formatters are compared: the renderings in order, a
  single \<open>.\<close> between neighbours, nothing before the first and nothing after the last.
\<close>

fun join_dots :: "string list \<Rightarrow> string" where
  "join_dots [] = []"
| "join_dots [s] = s"
| "join_dots (s # t # ts) = s @ ''.'' @ join_dots (t # ts)"

section \<open>Integral types\<close>

text \<open>
  A value of an integral type \<open>T\<close> of \<open>LENGTH('a)\<close> bits is its two's-complement
  representation together with the signedness of \<open>T\<close>, which says how the
  representation is read.
\<close>

datatype signedness = Signed | Unsigned

type_synonym 'a integral = "signedness \<times> 'a word"

fun value_of :: "'a::len integral \<Rightarrow> int" where
  "value_of (Signed, w) = sint w"
| "value_of (Unsigned, w) = uint w"

text \<open>\<open>static_cast<std::make_unsigned_t<T>>(value)\<close>: the value modulo \<open>2 ^ width\<close>.\<close>

definition static_cast_unsigned :: "'a::len integral \<Rightarrow> 'a word" where
  "static_cast_unsigned x = word_of_int (value_of x)"

text \<open>\<open>sizeof(U)\<close>, in bytes of eight bits.\<close>

definition sizeof :: "'a::len word \<Rightarrow> nat" where
  "sizeof u = LENGTH('a) div 8"

text \<open>
  The loop \<^verbatim>\<open>for (std::size_t i = 0; i < B; ++i)\<close> of the integral overload,
  from its state \<open>i\<close> and the stream. As \<open>i < B\<close> in the body, \<open>B - 1 - i\<close> does not
  wrap and the shift stays below the width. For a type narrower than \<open>int\<close> the shift
  and the mask act on the promoted, non-negative value, with the same result. The byte
  is an \<open>unsigned\<close>, which the stream writes as a number.
\<close>

function print_ip_loop :: "'a::len word \<Rightarrow> nat \<Rightarrow> nat \<Rightarrow> ostream \<Rightarrow> ostream" where
  "print_ip_loop u B i out =
     (if i < B then
        let shift = 8 * (B - 1 - i);
            byte = unat (drop_bit shift u AND 0xFF);
            out1 = (if i \<noteq> 0 then put_char CHR ''.'' out else out);
            out2 = put_unsigned byte out1
        in print_ip_loop u B (i + 1) out2
      else out)"
  by pat_completeness auto
termination
  by (relation "measure (\<lambda>(u, B, i, out). B - i)") auto

declare print_ip_loop.simps [simp del]

definition print_ip_integral :: "'a::len integral \<Rightarrow> ostream \<Rightarrow> ostream" where
  "print_ip_integral v out =
     (let u = static_cast_unsigned v;
          B = sizeof u
      in put_char CHR ''\<newline>'' (print_ip_loop u B 0 out))"

text \<open>
  The unsigned counterpart of a value: the number its representation denotes once the
  sign is dropped, which is the value modulo \<open>2 ^ width\<close>.
\<close>

definition unsigned_reinterpretation :: "'a::len integral \<Rightarrow> nat" where
  "unsigned_reinterpretation v = nat (value_of v mod 2 ^ LENGTH('a))"

text \<open>
  The 8-bit groups of a number \<open>n\<close> written in \<open>B\<close> groups, most significant first:
  group \<open>i\<close> is the base-256 digit of weight \<open>256 ^ (B - 1 - i)\<close>.
\<close>

definition groups_msb_first :: "nat \<Rightarrow> nat \<Rightarrow> nat list" where
  "groups_msb_first B n = map (\<lambda>i. n div 256 ^ (B - 1 - i) mod 256) [0..<B]"

text \<open>The number a list of base-256 digits denotes, most significant digit first.\<close>

definition number_of_groups :: "nat list \<Rightarrow> nat" where
  "number_of_groups gs = foldl (\<lambda>acc g. 256 * acc + g) 0 gs"

section \<open>Text\<close>

text \<open>\<^verbatim>\<open>inline void print_ip(const std::string& s)\<close>\<close>

definition print_ip_string :: "string \<Rightarrow> ostream \<Rightarrow> ostream" where
  "print_ip_string s out = put_char CHR ''\<newline>'' (put_string s out)"

section \<open>Containers\<close>

text \<open>
  The two container shapes the third overload accepts. Both hold their elements in
  sequence, and the range-based \<open>for\<close> visits them from \<open>begin()\<close> to \<open>end()\<close>.
\<close>

datatype 'a container = StdVector "'a list" | StdList "'a list"

fun elements :: "'a container \<Rightarrow> 'a list" where
  "elements (StdVector xs) = xs"
| "elements (StdList xs) = xs"

text \<open>
  The body of \<^verbatim>\<open>for (const auto& x : cont)\<close> over the elements still to visit,
  from the flag \<open>first\<close> and the stream. The element's own \<open>operator<<\<close> is the
  parameter \<open>render\<close>: the text it writes for an element.
\<close>

fun container_loop :: "('a \<Rightarrow> string) \<Rightarrow> 'a list \<Rightarrow> bool \<Rightarrow> ostream \<Rightarrow> ostream" where
  "container_loop render [] first out = out"
| "container_loop render (x # xs) first out =
     (let out1 = (if \<not> first then put_char CHR ''.'' out else out);
          first1 = False;
          out2 = put_string (render x) out1
      in container_loop render xs first1 out2)"

definition print_ip_container :: "('a \<Rightarrow> string) \<Rightarrow> 'a container \<Rightarrow> ostream \<Rightarrow> ostream" where
  "print_ip_container render cont out =
     put_char CHR ''\<newline>'' (container_loop render (elements cont) True out)"

section \<open>Tuples\<close>

text \<open>
  A tuple whose fields all have one type is the list of its fields, \<open>std::get<I>(t)\<close>
  being \<open>t ! I\<close>. The lambda \<open>print_one\<close> of \<open>detail::print_tuple_impl\<close> captures
  \<open>first\<close> by reference; here it takes the flag and the stream and returns both.
\<close>

fun print_one :: "('a \<Rightarrow> string) \<Rightarrow> 'a \<Rightarrow> bool \<times> ostream \<Rightarrow> bool \<times> ostream" where
  "print_one render v (first, out) =
     (let out1 = (if \<not> first then put_char CHR ''.'' out else out);
          first1 = False
      in (first1, put_string (render v) out1))"

text \<open>
  The fold \<^verbatim>\<open>(print_one(std::get<I>(t)), ...)\<close> over the comma operator evaluates
  its operands from left to right, one per index of the index sequence.
\<close>

definition print_tuple_impl :: "('a \<Rightarrow> string) \<Rightarrow> 'a list \<Rightarrow> nat list \<Rightarrow> ostream \<Rightarrow> ostream" where
  "print_tuple_impl render t idx out =
     put_char CHR ''\<newline>'' (snd (foldl (\<lambda>st i. print_one render (t ! i) st) (True, out) idx))"

text \<open>\<open>std::make_index_sequence<N>\<close>\<close>

definition make_index_sequence :: "nat \<Rightarrow> nat list" where
  "make_index_sequence n = [0..<n]"

definition print_ip_tuple :: "('a \<Rightarrow> string) \<Rightarrow> 'a list \<Rightarrow> ostream \<Rightarrow> ostream" where
  "print_ip_tuple render t out = print_tuple_impl render t (make_index_sequence (length t)) out"

section \<open>Type classification and overload selection\<close>

text \<open>
  Which overload a call \<open>print_ip(x)\<close> selects depends on the type of \<open>x\<close> alone.
  The types are those the overloads tell apart, taken as deduction leaves them (no
  reference and no top-level \<open>const\<close>, which \<open>std::decay_t\<close> would strip anyway);
  two types are the same type, for \<open>std::is_same_v\<close>, exactly when they are equal
  here. \<open>T_char_pointer\<close> is \<open>const char*\<close>, the type a string literal decays to.
\<close>

datatype integral_type =
    T_char | T_signed_char | T_unsigned_char | T_wchar_t | T_char16_t | T_char32_t
  | T_short | T_unsigned_short | T_int | T_unsigned_int
  | T_long | T_unsigned_long | T_long_long | T_unsigned_long_long

datatype cpp_type =
    T_bool
  | T_integral integral_type
  | T_double
  | T_string
  | T_char_pointer
  | T_vector cpp_type
  | T_list cpp_type
  | T_tuple "cpp_type list"

text \<open>\<open>std::is_integral_v\<close>: \<open>bool\<close>, the character types and the integer types.\<close>

fun is_integral :: "cpp_type \<Rightarrow> bool" where
  "is_integral T_bool = True"
| "is_integral (T_integral k) = True"
| "is_integral T = False"

fun is_vector :: "cpp_type \<Rightarrow> bool" where
  "is_vector (T_vector E) = True"
| "is_vector T = False"

fun is_list :: "cpp_type \<Rightarrow> bool" where
  "is_list (T_list E) = True"
| "is_list T = False"

text \<open>
  \<open>are_same\<close>: the primary template is true; the partial specialisation for two or
  more types compares the first two and recurs on the list without its first type.
\<close>

fun are_same :: "'t list \<Rightarrow> bool" where
  "are_same (T # U # R) = (T = U \<and> are_same (U # R))"
| "are_same Ts = True"

text \<open>
  The second overload is an ordinary function with a parameter of type
  \<open>const std::string&\<close>: it takes part in a call whenever the argument converts
  implicitly to \<open>std::string\<close>, which a \<open>std::string\<close> does and, through the
  converting constructor of \<open>std::string\<close>, a pointer to characters (so a string
  literal) does as well. No other type listed here converts.
\<close>

fun converts_to_string :: "cpp_type \<Rightarrow> bool" where
  "converts_to_string T_string = True"
| "converts_to_string T_char_pointer = True"
| "converts_to_string T = False"

datatype overload =
    Integral_overload | String_overload | Container_overload | Tuple_overload
  | Deleted_tuple_overload

text \<open>
  Whether an overload is a candidate for an argument of a type: for a template, that
  its parameter is deduced and its \<open>std::enable_if_t\<close> condition holds; for the
  function, that the argument converts.
\<close>

fun viable :: "overload \<Rightarrow> cpp_type \<Rightarrow> bool" where
  "viable Integral_overload T = (is_integral T \<and> T \<noteq> T_bool)"
| "viable String_overload T = converts_to_string T"
| "viable Container_overload T = (is_vector T \<or> is_list T)"
| "viable Tuple_overload T =
     (case T of T_tuple Ts \<Rightarrow> length Ts > 0 \<and> are_same Ts | _ \<Rightarrow> False)"
| "viable Deleted_tuple_overload T =
     (case T of T_tuple Ts \<Rightarrow> \<not> (length Ts > 0 \<and> are_same Ts) | _ \<Rightarrow> False)"

definition overloads :: "overload list" where
  "overloads = [Integral_overload, String_overload, Container_overload, Tuple_overload,
     Deleted_tuple_overload]"

text \<open>
  What the compiler makes of the call: it selects an overload, or the program is
  ill-formed and nothing is built. Selecting the deleted overload is an error. With
  several candidates the compiler would rank them; on the types above there is never
  more than one.
\<close>

datatype diagnostic = No_matching_function | Use_of_deleted_function | Ambiguous_call

datatype resolution = Calls overload | Ill_formed diagnostic

definition overload_resolution :: "cpp_type \<Rightarrow> resolution" where
  "overload_resolution T =
     (case filter (\<lambda>ov. viable ov T) overloads of
        [] \<Rightarrow> Ill_formed No_matching_function
      | [ov] \<Rightarrow> (if ov = Deleted_tuple_overload then Ill_formed Use_of_deleted_function
                 else Calls ov)
      | _ \<Rightarrow> Ill_formed Ambiguous_call)"

text \<open>
  The two properties of a list of field types that the overloads are compared with:
  every field type is the first one, and any two field types are the same.
\<close>

definition all_fields_same_type :: "'t list \<Rightarrow> bool" where
  "all_fields_same_type Ts = (\<forall>T \<in> set Ts. T = hd Ts)"

definition uniform_fields :: "'t list \<Rightarrow> bool" where
  "uniform_fields Ts = (\<forall>T \<in> set Ts. \<forall>U \<in> set Ts. T = U)"

section \<open>The integral formatter writes the bytes, most significant first\<close>

lemma unat_and_0xFF: "unat (w AND 0xFF) = unat w mod 256"
  for w :: "'a::len word"
proof -
  have "(0xFF :: 'a word) = mask 8"
    by (simp add: mask_eq_exp_minus_1)
  then have "w AND 0xFF = take_bit 8 w"
    by (simp add: take_bit_eq_mask)
  then have "unat (w AND 0xFF) = take_bit 8 (unat w)"
    by (simp only: unsigned_take_bit_eq)
  then show ?thesis
    by (simp add: take_bit_eq_mod)
qed

lemma unat_byte: "unat (drop_bit s u AND 0xFF) = unat u div 2 ^ s mod 256"
  for u :: "'a::len word"
proof -
  have "unat (drop_bit s u) = drop_bit s (unat u)"
    by (rule unat_drop_bit_eq)
  then show ?thesis
    by (simp only: unat_and_0xFF drop_bit_eq_div)
qed

lemma groups_msb_first_Suc:
  "groups_msb_first (Suc B) n = groups_msb_first B (n div 256) @ [n mod 256]"
proof -
  have "n div 256 ^ (B - i) = n div 256 div 256 ^ (B - 1 - i)" if "i < B" for i
  proof -
    from that have "B - i = Suc (B - 1 - i)" by simp
    then show ?thesis by (simp add: div_mult2_eq)
  qed
  then show ?thesis
    by (simp add: groups_msb_first_def)
qed

lemma number_of_groups_msb_first:
  "number_of_groups (groups_msb_first B n) = n mod 256 ^ B"
proof (induction B arbitrary: n)
  case 0
  show ?case by (simp add: groups_msb_first_def number_of_groups_def)
next
  case (Suc B)
  have "number_of_groups (groups_msb_first (Suc B) n) = 256 * number_of_groups (groups_msb_first B (n div 256)) + n mod 256"
    by (simp add: groups_msb_first_Suc number_of_groups_def)
  also have "\<dots> = 256 * (n div 256 mod 256 ^ B) + n mod 256"
    by (simp only: Suc.IH)
  also have "\<dots> = n mod 256 ^ Suc B"
    by (simp add: mod_mult2_eq)
  finally show ?case .
qed

lemma join_dots_snoc:
  "join_dots (xs @ [y]) = (if xs = [] then y else join_dots xs @ ''.'' @ y)"
  by (induction xs rule: join_dots.induct) simp_all

lemma print_ip_loop_join:
  "i \<le> B \<Longrightarrow> acc = out @ join_dots (map (\<lambda>k. dec_of_nat (unat u div 2 ^ (8 * (B - 1 - k)) mod 256)) [0..<i]) \<Longrightarrow>
   print_ip_loop u B i acc = out @ join_dots (map (\<lambda>k. dec_of_nat (unat u div 2 ^ (8 * (B - 1 - k)) mod 256)) [0..<B])"
proof (induction u B i acc rule: print_ip_loop.induct)
  case (1 u B i acc)
  show ?case
  proof (cases "i < B")
    case True
    let ?g = "\<lambda>k. dec_of_nat (unat u div 2 ^ (8 * (B - 1 - k)) mod 256)"
    let ?acc' = "put_unsigned (unat (drop_bit (8 * (B - 1 - i)) u AND 0xFF)) (if i \<noteq> 0 then put_char CHR ''.'' acc else acc)"
    have step: "?acc' = out @ join_dots (map ?g [0..<i + 1])"
      using "1.prems"(2) by (simp add: put_unsigned_def put_char_def unat_byte join_dots_snoc)
    have "print_ip_loop u B i acc = print_ip_loop u B (i + 1) ?acc'"
      using True by (subst print_ip_loop.simps) (simp add: Let_def)
    also have "\<dots> = out @ join_dots (map ?g [0..<B])"
      using True step by (intro "1.IH"[OF True refl refl refl refl]) simp_all
    finally show ?thesis .
  next
    case False
    with "1.prems" have "i = B" by simp
    then show ?thesis using "1.prems"(2) by (subst print_ip_loop.simps) simp
  qed
qed


lemma digit_char_is_digit: "d < 10 \<Longrightarrow> digit_char d \<in> set ''0123456789''"
  unfolding digit_char_def by (rule nth_mem) simp

lemma dec_of_nat_digits: "set (dec_of_nat n) \<subseteq> set ''0123456789''"
proof (induction n rule: dec_of_nat.induct)
  case (1 n)
  show ?case
  proof (cases "n < 10")
    case True
    then have "digit_char n \<in> set ''0123456789''"
      by (rule digit_char_is_digit)
    with True show ?thesis
      by (subst dec_of_nat.simps) simp
  next
    case False
    have "n mod 10 < 10" by simp
    then have "digit_char (n mod 10) \<in> set ''0123456789''"
      by (rule digit_char_is_digit)
    with False "1.IH" show ?thesis
      by (subst dec_of_nat.simps) simp
  qed
qed

lemma digit_value_digit_char: "d < 10 \<Longrightarrow> digit_value (digit_char d) = d"
proof -
  assume "d < 10"
  then have "d \<in> {0, 1, 2, 3, 4, 5, 6, 7, 8, 9}" by auto
  then show ?thesis
    by (auto simp: digit_char_def digit_value_def)
qed

lemma nat_of_dec_of_nat: "nat_of_dec (dec_of_nat n) = n"
proof (induction n rule: dec_of_nat.induct)
  case (1 n)
  show ?case
  proof (cases "n < 10")
    case True
    then show ?thesis
      by (subst dec_of_nat.simps) (simp add: nat_of_dec_def digit_value_digit_char)
  next
    case False
    have "nat_of_dec (dec_of_nat n) = 10 * nat_of_dec (dec_of_nat (n div 10)) + digit_value (digit_char (n mod 10))"
      using False by (subst dec_of_nat.simps) (simp add: nat_of_dec_def)
    also have "\<dots> = 10 * (n div 10) + n mod 10"
      using False by (simp add: "1.IH" digit_value_digit_char)
    finally show ?thesis by simp
  qed
qed

lemma set_join_dots: "set (join_dots ss) \<subseteq> (\<Union>s\<in>set ss. set s) \<union> {CHR ''.''}"
  by (induction ss rule: join_dots.induct) auto

lemma newline_notin_join_dec: "CHR ''\<newline>'' \<notin> set (join_dots (map dec_of_nat ns))"
proof
  assume "CHR ''\<newline>'' \<in> set (join_dots (map dec_of_nat ns))"
  with set_join_dots [of "map dec_of_nat ns"]
  have "CHR ''\<newline>'' \<in> (\<Union>s\<in>set (map dec_of_nat ns). set s) \<union> {CHR ''.''}"
    by blast
  then obtain n where "CHR ''\<newline>'' \<in> set (dec_of_nat n)"
    by auto
  with dec_of_nat_digits [of n] show False
    by auto
qed



lemma unat_static_cast_unsigned:
  "unat (static_cast_unsigned v) = unsigned_reinterpretation v"
  by (simp add: static_cast_unsigned_def unsigned_reinterpretation_def unat_eq_nat_uint uint_word_of_int)

lemma static_cast_unsigned_bits: "static_cast_unsigned (s, w) = w"
  by (cases s) (simp_all add: static_cast_unsigned_def)

lemma print_ip_integral_join:
  fixes v :: "'a::len integral"
  assumes "LENGTH('a) = 8 * B"
  shows "print_ip_integral v out =
    out @ join_dots (map dec_of_nat (groups_msb_first B (unsigned_reinterpretation v))) @ ''\<newline>''"
proof -
  let ?u = "static_cast_unsigned v"
  have B: "sizeof ?u = B"
    using assms by (simp add: sizeof_def)
  have pow: "(2::nat) ^ (8 * k) = 256 ^ k" for k
    by (simp add: power_mult)
  have "print_ip_loop ?u B 0 out =
    out @ join_dots (map (\<lambda>k. dec_of_nat (unat ?u div 2 ^ (8 * (B - 1 - k)) mod 256)) [0..<B])"
    by (rule print_ip_loop_join) simp_all
  also have "\<dots> = out @ join_dots (map dec_of_nat (groups_msb_first B (unat ?u)))"
    by (simp add: groups_msb_first_def pow comp_def)
  finally show ?thesis
    by (simp add: print_ip_integral_def B put_char_def unat_static_cast_unsigned)
qed

lemma groups_msb_first_bounds:
  "length (groups_msb_first B n) = B" "\<forall>g\<in>set (groups_msb_first B n). g < 256"
  by (auto simp: groups_msb_first_def)

lemma unsigned_reinterpretation_less:
  fixes v :: "'a::len integral"
  shows "unsigned_reinterpretation v < 2 ^ LENGTH('a)"
  unfolding unat_static_cast_unsigned [symmetric] by (rule unsigned_less)

lemma groups_decimal:
  "\<forall>g\<in>set (groups_msb_first B n). g < 256 \<and> nat_of_dec (dec_of_nat g) = g"
  by (simp add: groups_msb_first_def nat_of_dec_of_nat)

lemma integral_type_selects_integral_overload:
  "overload_resolution (T_integral k) = Calls Integral_overload"
  by (simp add: overload_resolution_def overloads_def)

text \<open>
  C1. For a value of an integral type of \<open>B\<close> bytes, signed or unsigned, the integral
  overload appends to the stream the 8-bit groups of the value's unsigned
  reinterpretation, most significant first, each below 256 and written as the decimal
  numeral that denotes it, with a dot between neighbours, and then one newline; the
  groups are \<open>B\<close> in number and denote the reinterpreted value, and the text before the
  newline holds no newline. Every integral type but \<open>bool\<close> selects this overload. The
  32-bit pattern \<open>0x7F000001\<close> gives \<open>127.0.0.1\<close>, zero gives \<open>0.0.0.0\<close>, the signed
  32-bit value \<open>-1\<close> gives \<open>255.255.255.255\<close>, and a one-byte value gives its decimal
  number alone, with no dot.
\<close>

theorem print_ip_integral_groups:
  fixes v :: "'a::len integral"
  assumes "LENGTH('a) = 8 * B"
  shows "(let n = unsigned_reinterpretation v; gs = groups_msb_first B n in
            print_ip_integral v out = out @ join_dots (map dec_of_nat gs) @ ''\<newline>'' \<and>
            length gs = B \<and> (\<forall>g\<in>set gs. g < 256 \<and> nat_of_dec (dec_of_nat g) = g) \<and>
            number_of_groups gs = n \<and>
            CHR ''\<newline>'' \<notin> set (join_dots (map dec_of_nat gs)))
         \<and> print_ip_integral (Unsigned, 0x7F000001 :: 32 word) [] = ''127.0.0.1\<newline>''
         \<and> print_ip_integral (Signed, 0x7F000001 :: 32 word) [] = ''127.0.0.1\<newline>''
         \<and> print_ip_integral (Unsigned, 0 :: 32 word) [] = ''0.0.0.0\<newline>''
         \<and> value_of (Signed, - 1 :: 32 word) = - 1
         \<and> print_ip_integral (Signed, - 1 :: 32 word) [] = ''255.255.255.255\<newline>''
         \<and> (\<forall>s (w :: 8 word). print_ip_integral (s, w) [] = dec_of_nat (unat w) @ ''\<newline>'')
         \<and> (\<forall>k. overload_resolution (T_integral k) = Calls Integral_overload)"
proof -
  have "unsigned_reinterpretation v < 256 ^ B"
    using unsigned_reinterpretation_less [of v] assms by (simp add: power_mult)
  then have recon: "number_of_groups (groups_msb_first B (unsigned_reinterpretation v)) = unsigned_reinterpretation v"
    by (simp add: number_of_groups_msb_first)
  have general: "(let n = unsigned_reinterpretation v; gs = groups_msb_first B n in
            print_ip_integral v out = out @ join_dots (map dec_of_nat gs) @ ''\<newline>'' \<and>
            length gs = B \<and> (\<forall>g\<in>set gs. g < 256 \<and> nat_of_dec (dec_of_nat g) = g) \<and>
            number_of_groups gs = n \<and>
            CHR ''\<newline>'' \<notin> set (join_dots (map dec_of_nat gs)))"
    unfolding Let_def
    by (intro conjI print_ip_integral_join [OF assms] groups_msb_first_bounds(1) groups_decimal
        recon newline_notin_join_dec)
  have e1: "print_ip_integral (Unsigned, 0x7F000001 :: 32 word) [] = ''127.0.0.1\<newline>''"
    by code_simp
  have e2: "print_ip_integral (Signed, 0x7F000001 :: 32 word) [] = ''127.0.0.1\<newline>''"
    by code_simp
  have e3: "print_ip_integral (Unsigned, 0 :: 32 word) [] = ''0.0.0.0\<newline>''"
    by code_simp
  have e4: "value_of (Signed, - 1 :: 32 word) = - 1"
    by simp
  have e5: "print_ip_integral (Signed, - 1 :: 32 word) [] = ''255.255.255.255\<newline>''"
    by code_simp
  have e6: "print_ip_integral (s, w) [] = dec_of_nat (unat w) @ ''\<newline>''" for s and w :: "8 word"
  proof -
    have "LENGTH(8) = 8 * 1" by simp
    from print_ip_integral_join [OF this, of "(s, w)" "[]"]
    have "print_ip_integral (s, w) [] = join_dots (map dec_of_nat (groups_msb_first 1 (unat w))) @ ''\<newline>''"
      by (simp add: unat_static_cast_unsigned [symmetric] static_cast_unsigned_bits)
    moreover have "unat w mod 256 = unat w"
    proof -
      have "unat w < 2 ^ LENGTH(8)" by (rule unsigned_less)
      then show ?thesis by simp
    qed
    ultimately show ?thesis
      by (simp add: groups_msb_first_def)
  qed
  show ?thesis
    by (intro conjI allI general e1 e2 e3 e4 e5 e6 integral_type_selects_integral_overload)
qed

theorem print_ip_integral_groups_witness:
  "LENGTH(16) = 8 * 2 \<and> unsigned_reinterpretation (Signed, - 2 :: 16 word) = 65534 \<and>
   groups_msb_first 2 65534 = [255, 254] \<and>
   print_ip_integral (Signed, - 2 :: 16 word) ''ip: '' = ''ip: 255.254\<newline>''"
proof -
  have h: "LENGTH(16) = 8 * 2" by simp
  have n: "unsigned_reinterpretation (Signed, - 2 :: 16 word) = 65534"
    by (simp add: unsigned_reinterpretation_def)
  have g: "groups_msb_first 2 65534 = [255, 254]"
    by (simp add: groups_msb_first_def upt_conv_Cons)
  have d: "join_dots (map dec_of_nat [255, 254]) = ''255.254''"
    by code_simp
  have "print_ip_integral (Signed, - 2 :: 16 word) ''ip: '' =
      ''ip: '' @ join_dots (map dec_of_nat (groups_msb_first 2 (unsigned_reinterpretation (Signed, - 2 :: 16 word)))) @ ''\<newline>''"
    using print_ip_integral_groups [OF h, of "(Signed, - 2 :: 16 word)" "''ip: ''", THEN conjunct1]
    unfolding Let_def by (rule conjunct1)
  then have "print_ip_integral (Signed, - 2 :: 16 word) ''ip: '' = ''ip: 255.254\<newline>''"
    by (simp only: n g d append.simps)
  with h n g show ?thesis
    by (intro conjI)
qed

section \<open>Containers and tuples: one rendering per element, dots between\<close>

lemma container_loop_later:
  "container_loop render xs False out = out @ concat (map (\<lambda>x. CHR ''.'' # render x) xs)"
  by (induction xs arbitrary: out) (simp_all add: put_char_def put_string_def)

lemma join_dots_Cons: "join_dots (s # ss) = s @ concat (map (\<lambda>t. CHR ''.'' # t) ss)"
  by (induction ss arbitrary: s) simp_all

lemma container_loop_first:
  "container_loop render xs True out = out @ join_dots (map render xs)"
proof (cases xs)
  case Nil
  then show ?thesis by simp
next
  case (Cons x ys)
  then show ?thesis
    by (simp add: container_loop_later join_dots_Cons put_string_def comp_def)
qed

lemma print_ip_container_join:
  "print_ip_container render cont out = out @ join_dots (map render (elements cont)) @ ''\<newline>''"
  by (simp add: print_ip_container_def container_loop_first put_char_def)

lemma fold_print_one:
  "snd (foldl (\<lambda>st i. print_one render (t ! i) st) (first, out) idx) =
   container_loop render (map (\<lambda>i. t ! i) idx) first out"
  by (induction idx arbitrary: first out) (simp_all add: Let_def)

lemma print_ip_tuple_container:
  "print_ip_tuple render t out = print_ip_container render (StdVector t) out"
  by (simp add: print_ip_tuple_def print_tuple_impl_def make_index_sequence_def fold_print_one
      print_ip_container_def map_nth)

lemma dec_of_nat_examples:
  "dec_of_nat 0 = ''0''" "dec_of_nat 1 = ''1''" "dec_of_nat (Suc 0) = ''1''" "dec_of_nat 255 = ''255''"
  "dec_of_nat 100 = ''100''" "dec_of_nat 200 = ''200''" "dec_of_nat 300 = ''300''"
  "dec_of_nat 400 = ''400''"
  by (simp_all add: dec_of_nat.simps digit_char_def)

lemma char_of_examples:
  "char_of (255 :: nat) = CHR 0xFF" "char_of (0 :: nat) = CHR 0x00"
  "char_of (1 :: nat) = CHR 0x01" "char_of (Suc 0) = CHR 0x01"
  by code_simp+

section \<open>Which overload a type selects\<close>

lemma are_same_hd: "are_same Ts \<longleftrightarrow> (\<forall>T \<in> set Ts. T = hd Ts)"
  by (induction Ts rule: are_same.induct) auto

lemma are_same_uniform: "are_same Ts \<longleftrightarrow> uniform_fields Ts"
  unfolding uniform_fields_def
  by (induction Ts rule: are_same.induct) auto

lemma are_same_replicate: "are_same (replicate n T)"
  by (simp add: are_same_hd)

lemma viable_tuple_type:
  "viable ov (T_tuple Ts) =
     (if length Ts > 0 \<and> are_same Ts then ov = Tuple_overload else ov = Deleted_tuple_overload)"
  by (cases ov) auto

lemma overload_resolution_tuple:
  "overload_resolution (T_tuple Ts) =
     (if length Ts > 0 \<and> are_same Ts then Calls Tuple_overload
      else Ill_formed Use_of_deleted_function)"
  by (simp add: overload_resolution_def overloads_def)

lemma overload_resolution_cases:
  "overload_resolution T_bool = Ill_formed No_matching_function"
  "overload_resolution (T_integral k) = Calls Integral_overload"
  "overload_resolution T_double = Ill_formed No_matching_function"
  "overload_resolution T_string = Calls String_overload"
  "overload_resolution T_char_pointer = Calls String_overload"
  "overload_resolution (T_vector E) = Calls Container_overload"
  "overload_resolution (T_list E) = Calls Container_overload"
  by (simp_all add: overload_resolution_def overloads_def)

text \<open>
  On these types at most one overload is ever a candidate, so the choice never needs
  the ranking of conversions and is never ambiguous.
\<close>

lemma overload_resolution_not_ambiguous: "overload_resolution T \<noteq> Ill_formed Ambiguous_call"
  by (cases T) (simp_all add: overload_resolution_cases overload_resolution_tuple)

section \<open>The claims about text\<close>

text \<open>
  C8. The text overload appends the string as it is and then one newline: nothing is
  escaped, changed or split, also when the string holds dots. The string \<open>test\<close> gives
  \<open>test\<close> and a newline.
\<close>

theorem print_ip_string_verbatim:
  "print_ip_string s out = out @ s @ ''\<newline>''
   \<and> print_ip_string ''test'' [] = ''test\<newline>''
   \<and> print_ip_string ''192.168.0.1'' [] = ''192.168.0.1\<newline>''
   \<and> overload_resolution T_string = Calls String_overload"
  by (simp add: print_ip_string_def put_char_def put_string_def overload_resolution_cases)

theorem print_ip_string_verbatim_witness:
  "print_ip_string ''a.b'' ''x'' = ''xa.b\<newline>''"
  using print_ip_string_verbatim [of "''a.b''" "''x''"] by simp

text \<open>
  The text overload is not reserved to \<open>std::string\<close>: a pointer to characters
  selects it as well.
\<close>

theorem char_pointer_counterexample:
  "overload_resolution T_char_pointer = Calls String_overload \<and> T_char_pointer \<noteq> T_string"
  by (simp add: overload_resolution_cases)

text \<open>
  C6, as the code has it. A call selects the text overload exactly when the type of the
  argument converts implicitly to \<open>std::string\<close>: that is \<open>std::string\<close> itself and
  a pointer to characters, which therefore is formatted as text; no integral, container
  or tuple type selects it.
\<close>

theorem text_overload_selected_iff:
  "(overload_resolution T = Calls String_overload) = (converts_to_string T)
   \<and> converts_to_string T = (T = T_string \<or> T = T_char_pointer)
   \<and> viable String_overload T = converts_to_string T
   \<and> overload_resolution T_string = Calls String_overload
   \<and> overload_resolution T_char_pointer = Calls String_overload"
  by (cases T) (simp_all add: overload_resolution_cases overload_resolution_tuple)

theorem text_overload_selected_iff_witness:
  "overload_resolution T_char_pointer = Calls String_overload \<and> converts_to_string T_char_pointer
   \<and> overload_resolution (T_integral T_char) \<noteq> Calls String_overload"
proof -
  have a: "converts_to_string T_char_pointer"
    by simp
  have b: "\<not> converts_to_string (T_integral T_char)"
    by simp
  have c: "overload_resolution T_char_pointer = Calls String_overload"
    using a text_overload_selected_iff [of T_char_pointer, THEN conjunct1] by (rule iffD2 [rotated])
  have d: "overload_resolution (T_integral T_char) \<noteq> Calls String_overload"
  proof
    assume "overload_resolution (T_integral T_char) = Calls String_overload"
    with text_overload_selected_iff [of "T_integral T_char", THEN conjunct1]
    have "converts_to_string (T_integral T_char)"
      by (rule iffD1)
    with b show False ..
  qed
  show ?thesis
    by (intro conjI c a d)
qed

section \<open>The claims about containers\<close>

text \<open>
  C3. For a vector or a list, of any element type with a rendering, the container
  overload appends the renderings of the elements in forward order, a single dot between
  neighbours, and then one newline; for an empty container it appends the newline alone.
  The integers 100, 200, 300, 400 give \<open>100.200.300.400\<close>.
\<close>

theorem print_ip_container_forward_join:
  "print_ip_container render cont out = out @ join_dots (map render (elements cont)) @ ''\<newline>''
   \<and> print_ip_container render (StdVector []) out = out @ ''\<newline>''
   \<and> print_ip_container render (StdList []) out = out @ ''\<newline>''
   \<and> print_ip_container show_int (StdVector [100, 200, 300, 400]) [] = ''100.200.300.400\<newline>''
   \<and> overload_resolution (T_vector E) = Calls Container_overload
   \<and> overload_resolution (T_list E) = Calls Container_overload"
proof -
  have ex: "print_ip_container show_int (StdVector [100, 200, 300, 400]) [] = ''100.200.300.400\<newline>''"
    by (simp add: print_ip_container_join show_int_def dec_of_nat_examples)
  show ?thesis
    by (intro conjI print_ip_container_join ex overload_resolution_cases)
      (simp_all add: print_ip_container_join)
qed

theorem print_ip_container_forward_join_witness:
  "print_ip_container show_bool (StdList [True, False, True]) ''> '' = ''> 1.0.1\<newline>''"
  using print_ip_container_forward_join [of show_bool "StdList [True, False, True]" "''> ''"]
  by (simp add: show_bool_def)

text \<open>
  C7. A vector and a list holding the same elements in the same order produce the same
  output, for every element type, and the two container types select the same overload.
\<close>

theorem vector_list_same_output:
  "print_ip_container render (StdVector xs) out = print_ip_container render (StdList xs) out
   \<and> overload_resolution (T_vector E) = overload_resolution (T_list E)"
  by (simp add: print_ip_container_join overload_resolution_cases)

theorem vector_list_same_output_witness:
  "print_ip_container show_int (StdVector [10, - 2]) [] = print_ip_container show_int (StdList [10, - 2]) []"
  using vector_list_same_output [of show_int "[10, - 2]" "[]"] by (rule conjunct1)

text \<open>
  C10. \<open>bool\<close> is integral, yet the integral overload excludes it and a \<open>bool\<close>
  argument selects nothing; a vector or a list of \<open>bool\<close> selects the container
  overload, which writes each element as \<open>1\<close> or \<open>0\<close>, dots between, then a newline.
\<close>

theorem vector_of_bool_prints_digits:
  "is_integral T_bool \<and> \<not> viable Integral_overload T_bool
   \<and> overload_resolution T_bool = Ill_formed No_matching_function
   \<and> overload_resolution (T_vector T_bool) = Calls Container_overload
   \<and> overload_resolution (T_list T_bool) = Calls Container_overload
   \<and> print_ip_container show_bool cont out =
       out @ join_dots (map (\<lambda>b. if b then ''1'' else ''0'') (elements cont)) @ ''\<newline>''
   \<and> print_ip_container show_bool (StdVector [True, False, True]) [] = ''1.0.1\<newline>''"
proof -
  have "show_bool = (\<lambda>b. if b then ''1'' else ''0'')"
    by (simp add: show_bool_def fun_eq_iff)
  then show ?thesis
    by (simp add: overload_resolution_cases print_ip_container_join show_bool_def)
qed

theorem vector_of_bool_prints_digits_witness:
  "print_ip_container show_bool (StdList [False, False, True]) [] = ''0.0.1\<newline>''"
  using vector_of_bool_prints_digits [of "StdList [False, False, True]" "[]"] by simp

section \<open>The claims about tuples\<close>

text \<open>
  C5. \<open>are_same\<close>, which compares the first two types and recurs on the list without
  its first type, and is true of one type and of none, holds of a list of types exactly
  when every type in it is the first one.
\<close>

theorem are_same_iff_first:
  "(are_same Ts \<longleftrightarrow> all_fields_same_type Ts)
   \<and> are_same (T # U # R) = (T = U \<and> are_same (U # R))
   \<and> are_same [T] \<and> are_same []"
proof -
  have "are_same Ts \<longleftrightarrow> all_fields_same_type Ts"
    by (simp add: are_same_hd all_fields_same_type_def)
  then show ?thesis
    by simp
qed

theorem are_same_iff_first_witness:
  "are_same [T_int, T_int, T_int] \<and> all_fields_same_type [T_int, T_int, T_int]
   \<and> \<not> are_same [T_int, T_int, T_long] \<and> \<not> all_fields_same_type [T_int, T_int, T_long]"
proof -
  have a: "all_fields_same_type [T_int, T_int, T_int]"
    by (simp add: all_fields_same_type_def)
  have b: "\<not> all_fields_same_type [T_int, T_int, T_long]"
    by (simp add: all_fields_same_type_def)
  have c: "are_same [T_int, T_int, T_int]"
    using a are_same_iff_first [of "[T_int, T_int, T_int]", THEN conjunct1] by (rule iffD2 [rotated])
  have d: "\<not> are_same [T_int, T_int, T_long]"
  proof
    assume "are_same [T_int, T_int, T_long]"
    with are_same_iff_first [of "[T_int, T_int, T_long]", THEN conjunct1]
    have "all_fields_same_type [T_int, T_int, T_long]"
      by (rule iffD1)
    with b show False ..
  qed
  show ?thesis
    by (intro conjI a b c d)
qed

text \<open>
  C2. A tuple type whose field types are not all the same selects the deleted overload:
  the call is ill-formed, no overload that has a body is a candidate, and no function
  is ever called. Among the tuple types with at least one field, the deleted overload is
  selected for exactly those whose field types are not all the same.
\<close>

theorem heterogeneous_tuple_ill_formed:
  assumes "\<not> uniform_fields Ts"
  shows "overload_resolution (T_tuple Ts) = Ill_formed Use_of_deleted_function
    \<and> (\<forall>ov. overload_resolution (T_tuple Ts) \<noteq> Calls ov)
    \<and> (\<forall>ov. viable ov (T_tuple Ts) = (ov = Deleted_tuple_overload))
    \<and> (\<forall>Us. Us \<noteq> [] \<longrightarrow>
          (overload_resolution (T_tuple Us) = Ill_formed Use_of_deleted_function) = (\<not> uniform_fields Us))"
proof -
  from assms have ns: "\<not> are_same Ts"
    by (simp add: are_same_uniform)
  then have r: "overload_resolution (T_tuple Ts) = Ill_formed Use_of_deleted_function"
    by (simp add: overload_resolution_tuple)
  then have c: "\<forall>ov. overload_resolution (T_tuple Ts) \<noteq> Calls ov"
    by simp
  from ns have v: "\<forall>ov. viable ov (T_tuple Ts) = (ov = Deleted_tuple_overload)"
    by (simp add: viable_tuple_type)
  have e: "\<forall>Us. Us \<noteq> [] \<longrightarrow>
      (overload_resolution (T_tuple Us) = Ill_formed Use_of_deleted_function) = (\<not> uniform_fields Us)"
    by (simp add: overload_resolution_tuple are_same_uniform)
  show ?thesis
    by (intro conjI r c v e)
qed

theorem heterogeneous_tuple_ill_formed_witness:
  "\<not> uniform_fields [T_integral T_int, T_string]
   \<and> overload_resolution (T_tuple [T_integral T_int, T_string]) = Ill_formed Use_of_deleted_function"
proof -
  have h: "\<not> uniform_fields [T_integral T_int, T_string]"
    by (simp add: uniform_fields_def)
  from heterogeneous_tuple_ill_formed [OF h, THEN conjunct1] h show ?thesis
    by (intro conjI)
qed

text \<open>
  C9. For the tuple type with no fields the accepted tuple overload is not a candidate
  and the deleted one, whose condition is the negation, is: the call is ill-formed.
\<close>

theorem empty_tuple_selects_deleted:
  "overload_resolution (T_tuple []) = Ill_formed Use_of_deleted_function
   \<and> \<not> viable Tuple_overload (T_tuple [])
   \<and> viable Deleted_tuple_overload (T_tuple [])
   \<and> (\<forall>Ts. viable Deleted_tuple_overload (T_tuple Ts) = (\<not> viable Tuple_overload (T_tuple Ts)))
   \<and> (\<forall>ov. overload_resolution (T_tuple []) \<noteq> Calls ov)"
  by (simp add: overload_resolution_tuple)

theorem empty_tuple_selects_deleted_witness:
  "overload_resolution (T_tuple []) \<noteq> Calls Tuple_overload"
  using empty_tuple_selects_deleted by simp

text \<open>
  Four fields 255, 0, 0, 1 of type \<open>unsigned char\<close> are not written as
  \<open>255.0.0.1\<close>: each is written as one character.
\<close>

theorem uint8_tuple_counterexample:
  "print_ip_tuple show_unsigned_char [255, 0, 0, 1] [] \<noteq> ''255.0.0.1\<newline>''"
  by (simp add: print_ip_tuple_container print_ip_container_join show_unsigned_char_def)

text \<open>
  C4, as the code has it. A tuple with at least one field, all fields of one type,
  selects the tuple overload, which appends the renderings of the fields in order, a dot
  between neighbours, and then a newline: the output of the container overload for a
  vector of the same values. Fields 255, 0, 0, 1 of type \<open>int\<close> give \<open>255.0.0.1\<close>; of
  type \<open>unsigned char\<close> they give the four characters with these codes, dots between.
\<close>

theorem homogeneous_tuple_as_vector:
  assumes "t \<noteq> []"
  shows "print_ip_tuple render t out = out @ join_dots (map render t) @ ''\<newline>''
    \<and> print_ip_tuple render t out = print_ip_container render (StdVector t) out
    \<and> overload_resolution (T_tuple (replicate (length t) T)) = Calls Tuple_overload
    \<and> print_ip_tuple show_int [255, 0, 0, 1] [] = ''255.0.0.1\<newline>''
    \<and> print_ip_tuple show_unsigned_char [255, 0, 0, 1] [] =
        [CHR 0xFF, CHR ''.'', CHR 0x00, CHR ''.'', CHR 0x00, CHR ''.'', CHR 0x01, CHR ''\<newline>'']"
proof -
  have j: "print_ip_tuple render t out = out @ join_dots (map render t) @ ''\<newline>''"
    by (simp add: print_ip_tuple_container print_ip_container_join)
  have r: "overload_resolution (T_tuple (replicate (length t) T)) = Calls Tuple_overload"
    using assms by (simp add: overload_resolution_tuple are_same_replicate)
  have i: "print_ip_tuple show_int [255, 0, 0, 1] [] = ''255.0.0.1\<newline>''"
    by (simp add: print_ip_tuple_container print_ip_container_join show_int_def dec_of_nat_examples)
  have c: "print_ip_tuple show_unsigned_char [255, 0, 0, 1] [] =
        [CHR 0xFF, CHR ''.'', CHR 0x00, CHR ''.'', CHR 0x00, CHR ''.'', CHR 0x01, CHR ''\<newline>'']"
    by (simp add: print_ip_tuple_container print_ip_container_join show_unsigned_char_def
        char_of_examples)
  show ?thesis
    by (intro conjI j print_ip_tuple_container r i c)
qed

theorem homogeneous_tuple_as_vector_witness:
  "[192, 168, 0, 1 :: int] \<noteq> []
   \<and> print_ip_tuple show_int [192, 168, 0, 1] [] = print_ip_container show_int (StdVector [192, 168, 0, 1]) []
   \<and> overload_resolution (T_tuple [T_integral T_int, T_integral T_int, T_integral T_int, T_integral T_int]) = Calls Tuple_overload"
proof -
  have h: "[192, 168, 0, 1 :: int] \<noteq> []"
    by simp
  have n: "replicate (length [192, 168, 0, 1 :: int]) (T_integral T_int) =
      [T_integral T_int, T_integral T_int, T_integral T_int, T_integral T_int]"
    by (simp add: numeral_eq_Suc)
  note w = homogeneous_tuple_as_vector [OF h, of show_int "[]" "T_integral T_int"]
  have a: "print_ip_tuple show_int [192, 168, 0, 1] [] = print_ip_container show_int (StdVector [192, 168, 0, 1]) []"
    using w by (elim conjE)
  have b: "overload_resolution (T_tuple [T_integral T_int, T_integral T_int, T_integral T_int, T_integral T_int]) = Calls Tuple_overload"
    using w unfolding n by (elim conjE)
  show ?thesis
    by (intro conjI h a b)
qed

end
